theory Spec2Isabelle
  imports Main "HOL-Library.Char_ord" "HOL-Library.List_Lexorder"
begin

section \<open>The Mvp container of skbold (src/skbold/core/mvp.py)\<close>

text \<open>
  The class \<open>Mvp\<close> binds a matrix of patterns \<open>X\<close> to condition labels and to the voxel
  mask the patterns were read through. Two methods change an object after the loader has
  filled it: \<open>update_metadata\<close> derives every label field from \<open>cope_labels\<close>, and
  \<open>update_mask\<close> narrows \<open>mask_index\<close> by an index given over the voxels selected so far.

  A method is modelled as a function from the object before the call to the exception it
  raises (if any) together with the object after the call. An attribute that \<open>__init__\<close>
  sets to \<open>None\<close>, or does not create at all, is \<open>None\<close> in the record until a method or
  the loader assigns it.
\<close>

subsection \<open>Exceptions\<close>

text \<open>
  The \<open>ValueError\<close> that \<open>update_mask\<close> raises itself carries the message of the source.
  The exceptions that numpy, scikit-learn and the interpreter raise carry a shortened form
  of theirs.
\<close>

datatype exn =
    ValueError string
  | AttributeError string
  | IndexError string

subsection \<open>The object\<close>

text \<open>
  \<open>X\<close>, the nifti header and the affine are never inspected by the two methods; their types
  are left open. The attributes \<open>X\<close> and \<open>y\<close> are the fields \<open>self_X\<close> and \<open>self_y\<close>.
  A numpy array is represented by the sequence of its elements in row-major order:
  \<open>cope_labels\<close> is the one-dimensional array of condition names handed over by the loader
  and \<open>mask_index\<close> the boolean array of selected voxels.
\<close>

record ('x, 'h, 'a) Mvp =
  directory :: string
  sub_name :: string
  run_name :: string
  ref_space :: string
  beta2tstat :: bool
  mask_path :: "string option"
  mask_threshold :: int
  mask_name :: string
  cope_labels :: "string list option"
  n_cope :: "nat option"
  cope_names :: "string list option"
  remove_cope :: "string list"
  mask_index :: "bool list option"
  mask_shape :: "nat list option"
  nifti_header :: "'h option"
  affine :: "'a option"
  self_X :: "'x option"
  self_y :: "nat list option"
  n_trials :: "nat option"
  n_inst :: "nat list option"
  class_idx :: "bool list list option"
  trial_idx :: "nat list list option"

subsection \<open>The numpy and scikit-learn operations the methods call\<close>

text \<open>\<open>np.unique(ar)\<close>: the distinct elements of \<open>ar\<close> in ascending order; strings compare
  character by character.\<close>

definition np_unique :: "'a::linorder list \<Rightarrow> 'a list" where
  "np_unique ar = sort (remdups ar)"

text \<open>Position of the first occurrence of \<open>v\<close> in \<open>cs\<close>.\<close>

fun index_of :: "'a list \<Rightarrow> 'a \<Rightarrow> nat" where
  "index_of [] v = 0"
| "index_of (c # cs) v = (if c = v then 0 else Suc (index_of cs v))"

text \<open>\<open>LabelEncoder().fit_transform(y)\<close> is \<open>np.unique(y, return_inverse=True)\<close>: the classes
  are the sorted distinct labels and every label is replaced by its position among them.\<close>

definition fit_transform :: "'a::linorder list \<Rightarrow> nat list" where
  "fit_transform labels = (let classes = np_unique labels in map (index_of classes) labels)"

text \<open>\<open>a.sum()\<close> of a boolean array: the number of \<open>True\<close> entries.\<close>

definition np_sum :: "bool list \<Rightarrow> nat" where
  "np_sum bs = length (filter (\<lambda>b. b) bs)"

text \<open>\<open>np.where(b)[0]\<close> of a one-dimensional boolean array: the positions of its \<open>True\<close>
  entries, ascending.\<close>

definition np_where :: "bool list \<Rightarrow> nat list" where
  "np_where bs = filter (\<lambda>i. bs ! i) [0..<length bs]"

text \<open>\<open>ar == v\<close>, elementwise.\<close>

definition eq_elementwise :: "'a list \<Rightarrow> 'a \<Rightarrow> bool list" where
  "eq_elementwise ar v = map (\<lambda>c. c = v) ar"

text \<open>\<open>np.zeros(shape)\<close>: as many zeros as the product of the dimensions.\<close>

definition np_zeros :: "nat list \<Rightarrow> int list" where
  "np_zeros shp = replicate (prod_list shp) 0"

text \<open>\<open>a.reshape(shape)\<close> keeps the row-major element sequence and raises when the sizes
  differ.\<close>

definition reshape :: "'a list \<Rightarrow> nat list \<Rightarrow> exn + 'a list" where
  "reshape a shp =
     (if length a = prod_list shp then Inr a
      else Inl (ValueError ''total size of new array must be unchanged''))"

text \<open>\<open>a[mask]\<close> for a boolean \<open>mask\<close> of the shape of \<open>a\<close>: the elements of \<open>a\<close> at the
  \<open>True\<close> positions, in row-major order.\<close>

fun getitem_mask :: "'a list \<Rightarrow> bool list \<Rightarrow> 'a list" where
  "getitem_mask (a # as) (m # ms) =
     (if m then a # getitem_mask as ms else getitem_mask as ms)"
| "getitem_mask _ _ = []"

text \<open>\<open>t += v\<close> on a one-dimensional \<open>t\<close>: elementwise when the lengths agree, the single
  element of \<open>v\<close> added everywhere when \<open>v\<close> has length one, an error otherwise.\<close>

definition np_iadd :: "int list \<Rightarrow> int list \<Rightarrow> exn + int list" where
  "np_iadd t v =
     (if length v = length t then Inr (map2 (+) t v)
      else if length v = 1 then Inr (map (\<lambda>a. a + hd v) t)
      else Inl (ValueError ''operands could not be broadcast together''))"

text \<open>\<open>a[mask] = t\<close>: the values of \<open>t\<close> are written, in order, to the \<open>True\<close> positions of
  \<open>mask\<close>; every other element of \<open>a\<close> stays.\<close>

fun setitem_mask :: "'a list \<Rightarrow> bool list \<Rightarrow> 'a list \<Rightarrow> 'a list" where
  "setitem_mask (a # as) (m # ms) (v # vs) =
     (if m then v # setitem_mask as ms vs else a # setitem_mask as ms (v # vs))"
| "setitem_mask as _ _ = as"

text \<open>\<open>a.astype(bool)\<close>: an element is \<open>True\<close> iff it is not zero.\<close>

definition astype_bool :: "int list \<Rightarrow> bool list" where
  "astype_bool a = map (\<lambda>v. v \<noteq> 0) a"

text \<open>\<open>a.ravel()\<close>: the one-dimensional array of the elements of \<open>a\<close> in row-major order.\<close>

definition ravel :: "'a list \<Rightarrow> 'a list" where
  "ravel a = a"

text \<open>\<open>'%r' % n\<close> for a non-negative integer: its decimal digits.\<close>

definition digit :: "nat \<Rightarrow> char" where
  "digit d = char_of (48 + d)"

fun repr_nat :: "nat \<Rightarrow> string" where
  "repr_nat n = (if n < 10 then [digit n] else repr_nat (n div 10) @ [digit (n mod 10)])"

declare repr_nat.simps [simp del]

subsection \<open>update\_metadata\<close>

text \<open>
  \<open>LabelEncoder().fit_transform(None)\<close> raises before the first assignment, so the object is
  as it was. On an array every line runs; the comprehensions compare \<open>cl\<close> with each of its
  own elements (\<open>n_inst\<close>) and with each distinct name (\<open>class_idx\<close>, \<open>trial_idx\<close>).
\<close>

definition update_metadata :: "('x, 'h, 'a) Mvp \<Rightarrow> exn option \<times> ('x, 'h, 'a) Mvp" where
  "update_metadata self =
     (case cope_labels self of
        None \<Rightarrow> (Some (ValueError ''bad input shape ()''), self)
      | Some cl \<Rightarrow>
          (let names = np_unique cl in
           (None, self\<lparr>
              self_y := Some (fit_transform cl),
              n_trials := Some (length cl),
              cope_names := Some names,
              n_cope := Some (length names),
              n_inst := Some (map (\<lambda>cls. np_sum (eq_elementwise cl cls)) cl),
              class_idx := Some (map (\<lambda>cls. eq_elementwise cl cls) names),
              trial_idx := Some (map (\<lambda>cls. np_where (eq_elementwise cl cls)) names)\<rparr>)))"

subsection \<open>update\_mask\<close>

text \<open>
  \<open>new_idx\<close> is a one-dimensional array of integers (a boolean array enters as 0 and 1).
  \<open>tmp_idx\<close> holds floats in the source; an integer is zero as a float exactly when it is
  zero, and only that is read from \<open>tmp_idx\<close>, so its elements are integers here.
  The only assignment to the object is the last line: every exception leaves it as it was.
  The exceptions, in the order the source meets them: \<open>None\<close> has no \<open>sum\<close>; the sizes
  differ; with \<open>mask_shape\<close> still \<open>None\<close>, \<open>np.zeros(None)\<close> is a zero-dimensional array
  that the mask cannot index; \<open>reshape\<close> refuses a mask whose size is not the product of
  \<open>mask_shape\<close>.
\<close>

definition mismatch_msg :: "nat \<Rightarrow> nat \<Rightarrow> string" where
  "mismatch_msg new_size cur =
     ''Shape of new index ('' @ repr_nat new_size @
     '') is not the same as the current pattern ('' @ repr_nat cur @ '')!''"

definition update_mask ::
  "('x, 'h, 'a) Mvp \<Rightarrow> int list \<Rightarrow> exn option \<times> ('x, 'h, 'a) Mvp" where
  "update_mask self new_idx =
     (case mask_index self of
        None \<Rightarrow> (Some (AttributeError ''NoneType object has no attribute sum''), self)
      | Some mi \<Rightarrow>
          if length new_idx \<noteq> np_sum mi
          then (Some (ValueError (mismatch_msg (length new_idx) (np_sum mi))), self)
          else
            (case mask_shape self of
               None \<Rightarrow> (Some (IndexError ''too many indices for array''), self)
             | Some shp \<Rightarrow>
                 (let tmp_idx = np_zeros shp in
                  case reshape mi shp of
                    Inl e \<Rightarrow> (Some e, self)
                  | Inr idx \<Rightarrow>
                      (case np_iadd (getitem_mask tmp_idx idx) new_idx of
                         Inl e \<Rightarrow> (Some e, self)
                       | Inr t \<Rightarrow>
                           (None, self\<lparr>mask_index :=
                              Some (ravel (astype_bool (setitem_mask tmp_idx idx t)))\<rparr>)))))"


text \<open>An object as the loader leaves it, with the given labels, mask and mask shape.\<close>

definition loaded ::
  "string list option \<Rightarrow> bool list option \<Rightarrow> nat list option \<Rightarrow> (int list list, string, int list list) Mvp" where
  "loaded cl mi shp =
     \<lparr> directory = ''/data/sub001/run_1.feat'', sub_name = ''sub001'', run_name = ''1'',
       ref_space = ''mni'', beta2tstat = True, mask_path = None, mask_threshold = 0,
       mask_name = ''WholeBrain'', cope_labels = cl, n_cope = None, cope_names = None,
       remove_cope = [], mask_index = mi, mask_shape = shp,
       nifti_header = Some ''hdr'', affine = Some [[1, 0], [0, 1]],
       self_X = Some [[1, 2], [3, 4], [5, 6], [7, 8], [9, 10], [11, 12]],
       self_y = None, n_trials = None, n_inst = None, class_idx = None, trial_idx = None \<rparr>"

subsection \<open>update\_mask on arrays of any shape, boolean or integer\<close>

text \<open>\<open>update_mask\<close> above gives the attributes the types of the data model: a boolean mask
  and a one-dimensional index. The lines of the source do not depend on that, and what they
  do depends on what they are given. \<open>update_mask_nd\<close> below reads the same lines on arrays
  that carry their element type and their shape, so that the type and the shape of the
  result are facts to be proved. An array is its element type, its shape and its elements
  in row-major order; the elements of a boolean array are 0 and 1. Floating-point arrays
  are not represented.\<close>

datatype dtype = Bool_type | Int_type

record ndarray =
  dtype :: dtype
  shape :: "nat list"
  items :: "int list"


text \<open>The elements read as booleans: not zero is \<open>True\<close>.\<close>

definition truth :: "int list \<Rightarrow> bool list" where
  "truth vs = map (\<lambda>v. v \<noteq> 0) vs"

text \<open>\<open>a.sum()\<close>: the number of \<open>True\<close> entries of a boolean array, the sum of the entries of an
  integer array.\<close>

definition nd_sum :: "ndarray \<Rightarrow> int" where
  "nd_sum a =
     (case dtype a of
        Bool_type \<Rightarrow> int (np_sum (truth (items a)))
      | Int_type \<Rightarrow> sum_list (items a))"

text \<open>\<open>'%r' % i\<close> for an integer.\<close>

definition repr_int :: "int \<Rightarrow> string" where
  "repr_int i = (if i < 0 then CHR ''-'' # repr_nat (nat (- i)) else repr_nat (nat i))"

text \<open>The entries of an integer index into an axis of length \<open>d\<close>: an entry \<open>v\<close> with
  \<open>-d \<le> v < 0\<close> counts from the end, an entry outside \<open>-d \<le> v < d\<close> is an \<open>IndexError\<close>.\<close>

fun norm_indices :: "nat \<Rightarrow> int list \<Rightarrow> exn + nat list" where
  "norm_indices d [] = Inr []"
| "norm_indices d (v # vs) =
     (if - int d \<le> v \<and> v < int d
      then (case norm_indices d vs of
              Inl e \<Rightarrow> Inl e
            | Inr rows \<Rightarrow> Inr ((if v < 0 then nat (v + int d) else nat v) # rows))
      else Inl (IndexError ''index is out of bounds for axis 0''))"

text \<open>\<open>a[idx]\<close> for an integer array \<open>idx\<close>: for every entry of \<open>idx\<close>, in row-major order, the
  row of \<open>a\<close> along its first axis that the entry names; a row has \<open>r\<close> elements.\<close>

definition getitem_rows :: "nat \<Rightarrow> 'a list \<Rightarrow> nat list \<Rightarrow> 'a list" where
  "getitem_rows r a rows = concat (map (\<lambda>row. take r (drop (row * r) a)) rows)"

text \<open>\<open>a[idx] = t\<close> for an integer array \<open>idx\<close>: the rows of \<open>t\<close> are written, in row-major order
  of \<open>idx\<close>, to the rows of \<open>a\<close> that the entries name; a row named twice keeps what was
  written last.\<close>

fun setitem_rows :: "nat \<Rightarrow> 'a list \<Rightarrow> nat list \<Rightarrow> 'a list \<Rightarrow> 'a list" where
  "setitem_rows r a [] t = a"
| "setitem_rows r a (row # rows) t =
     setitem_rows r (take (row * r) a @ take r t @ drop (row * r + r) a) rows (drop r t)"

text \<open>Broadcasting the elements \<open>xs\<close> of an array of shape \<open>sv\<close> to the shape \<open>st\<close> of the same
  number of dimensions: along an axis where \<open>sv\<close> has length 1 the elements repeat.\<close>

fun broadcast_items :: "nat list \<Rightarrow> nat list \<Rightarrow> 'a list \<Rightarrow> 'a list" where
  "broadcast_items (s # ss) (d # ds) xs =
     (if s = d
      then concat (map (\<lambda>i. broadcast_items ss ds
                            (take (prod_list ss) (drop (i * prod_list ss) xs))) [0..<d])
      else concat (replicate d (broadcast_items ss ds xs)))"
| "broadcast_items _ _ xs = xs"

text \<open>\<open>t += v\<close> for \<open>t\<close> of shape \<open>st\<close>: the shape of \<open>v\<close>, filled with ones on the left, must
  agree with \<open>st\<close> on every axis or be 1 there, since the sum is stored in \<open>t\<close>; otherwise
  a \<open>ValueError\<close>.\<close>

definition nd_iadd :: "nat list \<Rightarrow> int list \<Rightarrow> ndarray \<Rightarrow> exn + int list" where
  "nd_iadd st t v =
     (let sv = replicate (length st - length (shape v)) 1 @ shape v in
      if length (shape v) \<le> length st \<and> list_all2 (\<lambda>s d. s = d \<or> s = 1) sv st
      then Inr (map2 (+) t (broadcast_items sv st (items v)))
      else Inl (ValueError ''operands could not be broadcast together''))"

text \<open>\<open>tmp_idx.astype(bool).ravel()\<close> as an array: boolean, one axis, the elements of
  \<open>tmp_idx\<close> in row-major order read as booleans.\<close>

definition boolean_result :: "nat list \<Rightarrow> int list \<Rightarrow> ndarray" where
  "boolean_result shp tmp_idx =
     \<lparr>dtype = Bool_type, shape = [prod_list shp],
      items = map (\<lambda>b. if b then 1 else 0) (ravel (astype_bool tmp_idx))\<rparr>"

text \<open>Lines 99 to 108 on the old mask (\<open>None\<close> if not set), \<open>mask_shape\<close> as the loader set it
  and \<open>new_idx\<close>. The result is the array that line 108 assigns to \<open>mask_index\<close>, or the
  exception. A boolean old mask selects the positions where it is \<open>True\<close>; an integer old
  mask selects rows of \<open>tmp_idx\<close> along its first axis, so that the selection has the shape
  of \<open>mask_shape\<close> followed by the shape of a row, and a zero-dimensional \<open>tmp_idx\<close> has no
  axis to select from.\<close>

definition update_mask_nd :: "ndarray option \<Rightarrow> nat list \<Rightarrow> ndarray \<Rightarrow> exn + ndarray" where
  "update_mask_nd old_mask shp new_idx =
     (case old_mask of
        None \<Rightarrow> Inl (AttributeError ''NoneType object has no attribute sum'')
      | Some mi \<Rightarrow>
          if int (prod_list (shape new_idx)) \<noteq> nd_sum mi
          then Inl (ValueError
                 (''Shape of new index ('' @ repr_nat (prod_list (shape new_idx)) @
                  '') is not the same as the current pattern ('' @ repr_int (nd_sum mi) @ '')!''))
          else
            (let tmp_idx = np_zeros shp in
             case reshape (items mi) shp of
               Inl e \<Rightarrow> Inl e
             | Inr idx \<Rightarrow>
                 (case dtype mi of
                    Bool_type \<Rightarrow>
                      (case nd_iadd [np_sum (truth idx)] (getitem_mask tmp_idx (truth idx)) new_idx of
                         Inl e \<Rightarrow> Inl e
                       | Inr t \<Rightarrow> Inr (boolean_result shp (setitem_mask tmp_idx (truth idx) t)))
                  | Int_type \<Rightarrow>
                      (case shp of
                         [] \<Rightarrow> Inl (IndexError ''too many indices for array'')
                       | d # rest \<Rightarrow>
                           (case norm_indices d idx of
                              Inl e \<Rightarrow> Inl e
                            | Inr rows \<Rightarrow>
                                (let r = prod_list rest in
                                 case nd_iadd (shp @ rest) (getitem_rows r tmp_idx rows) new_idx of
                                   Inl e \<Rightarrow> Inl e
                                 | Inr t \<Rightarrow>
                                     Inr (boolean_result shp (setitem_rows r tmp_idx rows t))))))))"


subsection \<open>Vocabulary of the properties\<close>

text \<open>The number of entries of an index that are not zero.\<close>

definition count_nonzero :: "int list \<Rightarrow> nat" where
  "count_nonzero v = length (filter (\<lambda>x. x \<noteq> 0) v)"


text \<open>Reading a decimal numeral back.\<close>

definition read_nat :: "string \<Rightarrow> nat" where
  "read_nat ds = foldl (\<lambda>acc c. 10 * acc + (of_char c - 48)) 0 ds"


text \<open>A boolean mask and an index of the data model as arrays.\<close>

definition bool_array :: "bool list \<Rightarrow> ndarray" where
  "bool_array bs =
     \<lparr>dtype = Bool_type, shape = [length bs], items = map (\<lambda>b. if b then 1 else 0) bs\<rparr>"

definition int_array :: "int list \<Rightarrow> ndarray" where
  "int_array vs = \<lparr>dtype = Int_type, shape = [length vs], items = vs\<rparr>"

section \<open>Properties of the numpy operations\<close>

subsection \<open>Boolean-mask indexing\<close>

lemma np_sum_Cons: "np_sum (b # bs) = (if b then Suc (np_sum bs) else np_sum bs)"
  by (simp add: np_sum_def)

lemma np_sum_Nil: "np_sum [] = 0"
  by (simp add: np_sum_def)

lemma getitem_mask_zeros:
  "getitem_mask (replicate (length ms) z) ms = replicate (np_sum ms) z"
  by (induction ms) (simp_all add: np_sum_Cons np_sum_Nil)

lemma np_iadd_zeros: "length v = n \<Longrightarrow> np_iadd (replicate n 0) v = Inr v"
proof -
  assume "length v = n"
  then have "map2 (+) (replicate n 0) v = v"
    by (induction v arbitrary: n) auto
  with \<open>length v = n\<close> show ?thesis by (simp add: np_iadd_def)
qed

lemma length_setitem_mask: "length (setitem_mask a ms vs) = length a"
  by (induction a ms vs rule: setitem_mask.induct) simp_all

lemma np_sum_setitem:
  "length vs = np_sum ms \<Longrightarrow>
   np_sum (astype_bool (setitem_mask (replicate (length ms) 0) ms vs)) = count_nonzero vs"
proof (induction ms arbitrary: vs)
  case Nil
  then show ?case by (simp add: np_sum_def astype_bool_def count_nonzero_def)
next
  case (Cons m ms)
  show ?case
  proof (cases m)
    case True
    with Cons.prems obtain v vs' where vs: "vs = v # vs'" and len: "length vs' = np_sum ms"
      by (cases vs) (auto simp: np_sum_Cons)
    from Cons.IH[OF len] show ?thesis using True vs
      by (simp add: astype_bool_def np_sum_Cons count_nonzero_def)
  next
    case False
    with Cons.prems have len: "length vs = np_sum ms" by (simp add: np_sum_Cons)
    from Cons.IH[OF len] show ?thesis using False
      by (cases vs) (simp_all add: astype_bool_def np_sum_Cons)
  qed
qed

lemma setitem_mask_off:
  "length a = length ms \<Longrightarrow> i < length ms \<Longrightarrow> \<not> ms ! i \<Longrightarrow> setitem_mask a ms vs ! i = a ! i"
proof (induction a ms vs arbitrary: i rule: setitem_mask.induct)
  case (1 a as m ms v vs)
  then show ?case by (cases i) auto
qed simp_all

lemma setitem_subset:
  assumes "i < length ms" and "astype_bool (setitem_mask (replicate (length ms) 0) ms vs) ! i"
  shows "ms ! i"
proof (rule ccontr)
  assume "\<not> ms ! i"
  with assms(1) have "setitem_mask (replicate (length ms) 0) ms vs ! i = 0"
    by (simp add: setitem_mask_off)
  with assms show False
    by (simp add: astype_bool_def length_setitem_mask)
qed

lemma setitem_all_nonzero:
  "length vs = np_sum ms \<Longrightarrow> \<forall>v\<in>set vs. v \<noteq> 0 \<Longrightarrow>
   astype_bool (setitem_mask (replicate (length ms) 0) ms vs) = ms"
proof (induction ms arbitrary: vs)
  case Nil
  then show ?case by (simp add: astype_bool_def)
next
  case (Cons m ms)
  show ?case
  proof (cases m)
    case True
    with Cons.prems obtain v vs' where vs: "vs = v # vs'" and len: "length vs' = np_sum ms"
      by (cases vs) (auto simp: np_sum_Cons)
    with Cons.prems have "\<forall>v\<in>set vs'. v \<noteq> 0" "v \<noteq> 0" by auto
    with Cons.IH[OF len] show ?thesis using True vs
      by (simp add: astype_bool_def)
  next
    case False
    with Cons.prems have len: "length vs = np_sum ms" by (simp add: np_sum_Cons)
    from Cons.IH[OF len] Cons.prems(2) show ?thesis using False
      by (cases vs) (simp_all add: astype_bool_def)
  qed
qed

lemma update_mask_valid:
  assumes "mask_index self = Some mi" and "mask_shape self = Some shp"
    and "length mi = prod_list shp" and "length new_idx = np_sum mi"
  shows "update_mask self new_idx =
    (None, self\<lparr>mask_index :=
       Some (astype_bool (setitem_mask (replicate (length mi) 0) mi new_idx))\<rparr>)"
  using assms(1,2,4) assms(3)[symmetric]
  by (simp add: update_mask_def reshape_def np_zeros_def ravel_def Let_def
      getitem_mask_zeros np_iadd_zeros)

subsection \<open>Unique values, label encoding and positions\<close>

lemma set_np_unique: "set (np_unique ar) = set ar"
  by (simp add: np_unique_def)

lemma distinct_np_unique: "distinct (np_unique ar)"
  by (simp add: np_unique_def)

lemma sorted_np_unique: "sorted (np_unique ar)"
  by (simp add: np_unique_def)

lemma index_of_less: "v \<in> set cs \<Longrightarrow> index_of cs v < length cs"
  by (induction cs) auto

lemma nth_index_of: "v \<in> set cs \<Longrightarrow> cs ! index_of cs v = v"
  by (induction cs) auto

lemma index_of_rank:
  "sorted cs \<Longrightarrow> distinct cs \<Longrightarrow> v \<in> set cs \<Longrightarrow> index_of cs v = card {c \<in> set cs. c < v}"
proof (induction cs)
  case Nil
  then show ?case by simp
next
  case (Cons c cs)
  show ?case
  proof (cases "c = v")
    case True
    with Cons.prems have "{x \<in> set (c # cs). x < v} = {}" by auto
    with True show ?thesis by simp
  next
    case False
    with Cons.prems have v: "v \<in> set cs" and cv: "c < v" by auto
    from Cons.prems have "c \<notin> set cs" by simp
    then have "{x \<in> set (c # cs). x < v} = insert c {x \<in> set cs. x < v}"
      using cv by auto
    moreover have "c \<notin> {x \<in> set cs. x < v}" using \<open>c \<notin> set cs\<close> by simp
    moreover have "finite {x \<in> set cs. x < v}" by simp
    ultimately have "card {x \<in> set (c # cs). x < v} = Suc (card {x \<in> set cs. x < v})"
      by simp
    with Cons v False show ?thesis by simp
  qed
qed

lemma length_fit_transform: "length (fit_transform ar) = length ar"
  by (simp add: fit_transform_def)

lemma fit_transform_nth:
  "i < length ar \<Longrightarrow> fit_transform ar ! i = index_of (np_unique ar) (ar ! i)"
  by (simp add: fit_transform_def)

lemma fit_transform_rank:
  "i < length ar \<Longrightarrow> fit_transform ar ! i = card {c \<in> set ar. c < ar ! i}"
  using index_of_rank[of "np_unique ar" "ar ! i"]
  by (simp add: fit_transform_nth sorted_np_unique distinct_np_unique set_np_unique)

lemma fit_transform_decode:
  "i < length ar \<Longrightarrow> np_unique ar ! (fit_transform ar ! i) = ar ! i"
  by (simp add: fit_transform_nth nth_index_of set_np_unique)

lemma fit_transform_eq_iff:
  assumes "i < length ar" and "j < length ar"
  shows "(fit_transform ar ! i = fit_transform ar ! j) = (ar ! i = ar ! j)"
proof
  assume "fit_transform ar ! i = fit_transform ar ! j"
  then have "np_unique ar ! (fit_transform ar ! i) = np_unique ar ! (fit_transform ar ! j)"
    by simp
  with assms show "ar ! i = ar ! j" by (simp add: fit_transform_decode)
next
  assume "ar ! i = ar ! j"
  with assms show "fit_transform ar ! i = fit_transform ar ! j"
    by (simp add: fit_transform_nth)
qed

lemma np_sum_eq_elementwise: "np_sum (eq_elementwise ar v) = count_list ar v"
  by (induction ar) (simp_all add: np_sum_def eq_elementwise_def)

lemma set_np_where_eq: "set (np_where (eq_elementwise ar v)) = {i. i < length ar \<and> ar ! i = v}"
  by (auto simp: np_where_def eq_elementwise_def)

lemma distinct_np_where: "distinct (np_where bs)"
  by (simp add: np_where_def)

lemma sorted_np_where: "sorted (np_where bs)"
  unfolding np_where_def by (rule sorted_wrt_filter) simp

lemma distinct_concat_where:
  "distinct names \<Longrightarrow> distinct (concat (map (\<lambda>cls. np_where (eq_elementwise ar cls)) names))"
proof (induction names)
  case Nil
  then show ?case by simp
next
  case (Cons n ns)
  then show ?case
    by (auto simp: distinct_np_where set_np_where_eq)
qed

lemma set_concat_where:
  "set (concat (map (\<lambda>cls. np_where (eq_elementwise ar cls)) names)) =
   {i. i < length ar \<and> ar ! i \<in> set names}"
  by (auto simp: set_np_where_eq)

subsection \<open>Integer indexing and broadcasting\<close>









lemma truth_bool_items: "truth (map (\<lambda>b. if b then 1 else 0) bs) = bs"
  by (induction bs) (simp_all add: truth_def)

lemma concat_singletons: "k \<le> length xs \<Longrightarrow> concat (map (\<lambda>i. take 1 (drop i xs)) [0..<k]) = take k xs"
proof (induction k)
  case 0
  then show ?case by simp
next
  case (Suc k)
  then have "take (Suc k) xs = take k xs @ [xs ! k]"
    by (simp add: take_Suc_conv_app_nth)
  moreover from Suc.prems have "take 1 (drop k xs) = [xs ! k]"
    by (simp add: take_Suc_conv_app_nth Cons_nth_drop_Suc [symmetric])
  ultimately show ?case using Suc by simp
qed

lemma broadcast_items_same_1d: "broadcast_items [length xs] [length xs] xs = xs"
  using concat_singletons [of "length xs" xs] by simp

lemma repr_int_nat: "repr_int (int n) = repr_nat n"
  by (simp add: repr_int_def)

lemma nd_iadd_zeros_1d:
  "nd_iadd [length vs] (replicate (length vs) 0) (int_array vs) = Inr vs"
proof -
  have "map2 (+) (replicate (length vs) 0) vs = vs"
    by (induction vs) auto
  then show ?thesis
    by (simp add: nd_iadd_def int_array_def broadcast_items_same_1d del: broadcast_items.simps)
qed

subsection \<open>The example object\<close>

lemma loaded_fields [simp]:
  "cope_labels (loaded cl mi shp) = cl"
  "mask_index (loaded cl mi shp) = mi"
  "mask_shape (loaded cl mi shp) = shp"
  by (simp_all add: loaded_def)

lemma loaded_mask_update [simp]:
  "(loaded cl mi shp)\<lparr>mask_index := mi'\<rparr> = loaded cl mi' shp"
  by (simp add: loaded_def)

section \<open>Properties of the two methods\<close>

subsection \<open>What a call of update\_mask returns\<close>

lemma length_astype_bool: "length (astype_bool a) = length a"
  by (simp add: astype_bool_def)

lemma update_mask_success:
  assumes "update_mask self new_idx = (None, self')"
  shows "\<exists>mi shp. mask_index self = Some mi \<and> mask_shape self = Some shp \<and>
           length mi = prod_list shp \<and> length new_idx = np_sum mi \<and>
           self' = self\<lparr>mask_index :=
             Some (astype_bool (setitem_mask (replicate (length mi) 0) mi new_idx))\<rparr>"
proof (cases "mask_index self")
  case None
  with assms show ?thesis by (simp add: update_mask_def)
next
  case (Some mi)
  note mi = this
  show ?thesis
  proof (cases "length new_idx = np_sum mi")
    case False
    with assms mi show ?thesis by (simp add: update_mask_def)
  next
    case True
    note len = this
    show ?thesis
    proof (cases "mask_shape self")
      case None
      with assms mi len show ?thesis by (simp add: update_mask_def)
    next
      case (Some shp)
      note shp = this
      show ?thesis
      proof (cases "length mi = prod_list shp")
        case False
        with assms mi len shp show ?thesis
          by (simp add: update_mask_def reshape_def Let_def)
      next
        case True
        from update_mask_valid [OF mi shp True len] assms
        have "self' = self\<lparr>mask_index :=
             Some (astype_bool (setitem_mask (replicate (length mi) 0) mi new_idx))\<rparr>"
          by simp
        with mi shp True len show ?thesis by blast
      qed
    qed
  qed
qed

lemma update_mask_failure:
  assumes "update_mask self new_idx = (Some e, self')"
  shows "self' = self"
  using assms
  by (auto simp: update_mask_def Let_def split: option.splits if_splits sum.splits)

lemma read_nat_snoc: "read_nat (ds @ [c]) = 10 * read_nat ds + (of_char c - 48)"
  by (simp add: read_nat_def)

lemma of_char_digit: "d < 10 \<Longrightarrow> of_char (digit d) = 48 + d"
  by (simp add: digit_def)

lemma read_repr_nat: "read_nat (repr_nat n) = n"
proof (induction n rule: repr_nat.induct)
  case (1 n)
  show ?case
  proof (cases "n < 10")
    case True
    then have "repr_nat n = [digit n]" by (simp add: repr_nat.simps)
    with True show ?thesis by (simp add: read_nat_def of_char_digit)
  next
    case False
    then have "repr_nat n = repr_nat (n div 10) @ [digit (n mod 10)]"
      by (subst repr_nat.simps) simp
    with False "1.IH" show ?thesis
      by (simp add: read_nat_snoc of_char_digit)
  qed
qed



lemma scenario_B_call:
  "update_mask (loaded cl (Some [True, False, True, False]) (Some [2, 2])) [1, 0] =
     (None, loaded cl (Some [True, False, False, False]) (Some [2, 2]))"
proof -
  have "update_mask (loaded cl (Some [True, False, True, False]) (Some [2, 2])) [1, 0] =
     (None, (loaded cl (Some [True, False, True, False]) (Some [2, 2]))
        \<lparr>mask_index := Some (astype_bool (setitem_mask
            (replicate (length [True, False, True, False]) 0) [True, False, True, False] [1, 0]))\<rparr>)"
    by (rule update_mask_valid [where shp = "[2, 2]"]) (simp_all add: np_sum_def)
  then show ?thesis by (simp add: astype_bool_def)
qed


subsection \<open>What update\_mask returns on arrays of any shape and type\<close>





text \<open>On a boolean mask and a one-dimensional integer index, \<open>update_mask_nd\<close> is \<open>update_mask\<close>:
  the same exception, or the same new mask.\<close>

lemma update_mask_as_update_mask_nd:
  assumes "mask_index self = Some mi" and "mask_shape self = Some shp"
  shows "update_mask self new_idx =
    (case update_mask_nd (Some (bool_array mi)) shp (int_array new_idx) of
       Inl e \<Rightarrow> (Some e, self)
     | Inr a \<Rightarrow> (None, self\<lparr>mask_index := Some (truth (items a))\<rparr>))"
proof (cases "length new_idx = np_sum mi")
  case False
  with assms show ?thesis
    by (simp add: update_mask_def update_mask_nd_def mismatch_msg_def nd_sum_def bool_array_def
        int_array_def truth_bool_items repr_int_nat)
next
  case True
  note valid = this
  show ?thesis
  proof (cases "length mi = prod_list shp")
    case False
    with assms valid show ?thesis
      by (simp add: update_mask_def update_mask_nd_def nd_sum_def bool_array_def
          int_array_def truth_bool_items reshape_def Let_def)
  next
    case True
    have "update_mask_nd (Some (bool_array mi)) shp (int_array new_idx) =
        Inr (boolean_result shp (setitem_mask (np_zeros shp) mi new_idx))"
      using valid True nd_iadd_zeros_1d [of new_idx]
      by (simp add: update_mask_nd_def nd_sum_def bool_array_def truth_bool_items reshape_def
          Let_def np_zeros_def getitem_mask_zeros [of mi 0, simplified True]
          del: broadcast_items.simps)
        (simp add: int_array_def)
    moreover have "truth (items (boolean_result shp (setitem_mask (np_zeros shp) mi new_idx))) =
        astype_bool (setitem_mask (replicate (length mi) 0) mi new_idx)"
      by (simp add: boolean_result_def truth_bool_items ravel_def np_zeros_def True)
    ultimately show ?thesis
      using update_mask_valid [OF assms True valid] by simp
  qed
qed

subsection \<open>What a call of update\_metadata returns\<close>

lemma update_metadata_Some:
  "cope_labels self = Some cl \<Longrightarrow>
   update_metadata self =
     (None, self\<lparr>
        self_y := Some (fit_transform cl),
        n_trials := Some (length cl),
        cope_names := Some (np_unique cl),
        n_cope := Some (length (np_unique cl)),
        n_inst := Some (map (\<lambda>cls. np_sum (eq_elementwise cl cls)) cl),
        class_idx := Some (map (\<lambda>cls. eq_elementwise cl cls) (np_unique cl)),
        trial_idx := Some (map (\<lambda>cls. np_where (eq_elementwise cl cls)) (np_unique cl))\<rparr>)"
  by (simp add: update_metadata_def Let_def)

lemma fit_transform_less:
  "i < length ar \<Longrightarrow> fit_transform ar ! i < length (np_unique ar)"
  by (simp add: fit_transform_nth index_of_less set_np_unique)

lemma disjoint_np_where:
  "a \<noteq> b \<Longrightarrow> set (np_where (eq_elementwise ar a)) \<inter> set (np_where (eq_elementwise ar b)) = {}"
  by (auto simp: set_np_where_eq)

section \<open>The claims about update\_mask\<close>

text \<open>
  Claim C1. When the mask has one entry per voxel of \<open>mask_shape\<close> and \<open>new_idx\<close> has one
  entry per \<open>True\<close> entry of the mask, \<open>update_mask\<close> returns without an exception, changes
  only \<open>mask_index\<close>, and the new mask has as many \<open>True\<close> entries as \<open>new_idx\<close> has
  entries that are not zero. In particular, with shape (2, 2), mask
  [True, False, True, False] and \<open>new_idx\<close> = [1, 0] the new mask is
  [True, False, False, False].
\<close>

theorem update_mask_count:
  "(mask_index self = Some mi \<and> mask_shape self = Some shp \<and> length mi = prod_list shp \<and>
    length new_idx = np_sum mi \<longrightarrow>
      (\<exists>mi'. update_mask self new_idx = (None, self\<lparr>mask_index := Some mi'\<rparr>) \<and>
             np_sum mi' = count_nonzero new_idx)) \<and>
   update_mask (loaded cl (Some [True, False, True, False]) (Some [2, 2])) [1, 0] =
     (None, loaded cl (Some [True, False, False, False]) (Some [2, 2]))"
proof (intro conjI impI)
  assume a: "mask_index self = Some mi \<and> mask_shape self = Some shp \<and>
    length mi = prod_list shp \<and> length new_idx = np_sum mi"
  then have "update_mask self new_idx =
    (None, self\<lparr>mask_index :=
       Some (astype_bool (setitem_mask (replicate (length mi) 0) mi new_idx))\<rparr>)"
    by (simp add: update_mask_valid)
  moreover from a have
    "np_sum (astype_bool (setitem_mask (replicate (length mi) 0) mi new_idx)) =
     count_nonzero new_idx"
    using np_sum_setitem [of new_idx mi] by blast
  ultimately show "\<exists>mi'. update_mask self new_idx = (None, self\<lparr>mask_index := Some mi'\<rparr>) \<and>
             np_sum mi' = count_nonzero new_idx"
    by blast
next
  show "update_mask (loaded cl (Some [True, False, True, False]) (Some [2, 2])) [1, 0] =
     (None, loaded cl (Some [True, False, False, False]) (Some [2, 2]))"
    by (rule scenario_B_call)
qed

theorem update_mask_count_witness:
  "length [1, 1, 0 :: int] = np_sum [True, True, False, True] \<and>
   (\<exists>mi'. update_mask (loaded None (Some [True, True, False, True]) (Some [4])) [1, 1, 0] =
      (None, loaded None (Some mi') (Some [4])) \<and> np_sum mi' = 2)"
proof -
  have h: "length [1, 1, 0 :: int] = np_sum [True, True, False, True]"
    by (simp add: np_sum_def)
  have c: "count_nonzero [1, 1, 0] = 2"
    by (simp add: count_nonzero_def)
  from h c update_mask_count [of "loaded None (Some [True, True, False, True]) (Some [4])"
      "[True, True, False, True]" "[4]" "[1, 1, 0]" None]
  show ?thesis by simp
qed

text \<open>
  Claim C3. When the length of \<open>new_idx\<close> differs from the number of \<open>True\<close> entries of
  the mask, \<open>update_mask\<close> raises the \<open>ValueError\<close> whose message holds both sizes in
  decimal, each of which can be read back from its digits, and the object after the call is
  the object before it; in particular \<open>mask_index\<close> is unchanged. The instance below is
  Scenario C of the specification: the mask of Scenario B and an index of length 3.
\<close>

theorem update_mask_mismatch:
  assumes "mask_index self = Some mi" and "length new_idx \<noteq> np_sum mi"
  shows "update_mask self new_idx =
           (Some (ValueError (''Shape of new index ('' @ repr_nat (length new_idx) @
              '') is not the same as the current pattern ('' @ repr_nat (np_sum mi) @ '')!'')),
            self) \<and>
         read_nat (repr_nat (length new_idx)) = length new_idx \<and>
         read_nat (repr_nat (np_sum mi)) = np_sum mi"
  using assms by (simp add: update_mask_def mismatch_msg_def read_repr_nat)

theorem update_mask_mismatch_witness:
  "length [1, 0, 1 :: int] \<noteq> np_sum [True, False, True, False] \<and>
   update_mask (loaded None (Some [True, False, True, False]) (Some [2, 2])) [1, 0, 1] =
     (Some (ValueError ''Shape of new index (3) is not the same as the current pattern (2)!''),
      loaded None (Some [True, False, True, False]) (Some [2, 2]))"
proof -
  have s: "np_sum [True, False, True, False] = 2"
    by (simp add: np_sum_def)
  have l: "length [1, 0, 1 :: int] = 3" by simp
  have r3: "repr_nat 3 = ''3''" by code_simp
  have r2: "repr_nat 2 = ''2''" by code_simp
  have h1: "mask_index (loaded None (Some [True, False, True, False]) (Some [2, 2])) =
    Some [True, False, True, False]" by simp
  have h2: "length [1, 0, 1 :: int] \<noteq> np_sum [True, False, True, False]"
    unfolding s l by simp
  from update_mask_mismatch [OF h1 h2]
  have "update_mask (loaded None (Some [True, False, True, False]) (Some [2, 2])) [1, 0, 1] =
     (Some (ValueError (''Shape of new index ('' @ ''3'' @
              '') is not the same as the current pattern ('' @ ''2'' @ '')!'')),
      loaded None (Some [True, False, True, False]) (Some [2, 2]))"
    unfolding s l r3 r2 by blast
  with h2 show ?thesis by simp
qed

text \<open>
  Claim C6. For a valid \<open>new_idx\<close> the call returns, the new mask has the length of the old
  one, and every position that is \<open>True\<close> in the new mask was \<open>True\<close> in the old mask.
\<close>

theorem update_mask_subset:
  assumes "mask_index self = Some mi" and "mask_shape self = Some shp"
    and "length mi = prod_list shp" and "length new_idx = np_sum mi"
  shows "\<exists>mi'. update_mask self new_idx = (None, self\<lparr>mask_index := Some mi'\<rparr>) \<and>
           length mi' = length mi \<and> (\<forall>i<length mi. mi' ! i \<longrightarrow> mi ! i)"
proof -
  let ?new = "astype_bool (setitem_mask (replicate (length mi) 0) mi new_idx)"
  have "update_mask self new_idx = (None, self\<lparr>mask_index := Some ?new\<rparr>)"
    using assms by (rule update_mask_valid)
  moreover have "length ?new = length mi"
    by (simp add: length_astype_bool length_setitem_mask)
  moreover have "\<forall>i<length mi. ?new ! i \<longrightarrow> mi ! i"
    using setitem_subset by blast
  ultimately show ?thesis by blast
qed

theorem update_mask_subset_witness:
  "length [0, 5 :: int] = np_sum [True, False, True, False] \<and>
   (\<exists>mi'. update_mask (loaded None (Some [True, False, True, False]) (Some [2, 2])) [0, 5] =
      (None, loaded None (Some mi') (Some [2, 2])) \<and>
      length mi' = length [True, False, True, False] \<and> \<not> mi' ! 1 \<and> \<not> mi' ! 3)"
proof -
  have h: "length [0, 5 :: int] = np_sum [True, False, True, False]"
    by (simp add: np_sum_def)
  have p: "length [True, False, True, False] = prod_list [2, 2]" by simp
  have m: "mask_index (loaded None (Some [True, False, True, False]) (Some [2, 2])) =
    Some [True, False, True, False]" by simp
  have s: "mask_shape (loaded None (Some [True, False, True, False]) (Some [2, 2])) =
    Some [2, 2]" by simp
  from update_mask_subset [OF m s p h] obtain mi' where
    call: "update_mask (loaded None (Some [True, False, True, False]) (Some [2, 2])) [0, 5] =
      (None, loaded None (Some mi') (Some [2, 2]))"
    and len: "length mi' = length [True, False, True, False]"
    and sub: "\<forall>i<length [True, False, True, False]. mi' ! i \<longrightarrow> [True, False, True, False] ! i"
    unfolding loaded_mask_update by blast
  have "\<not> mi' ! 1" using sub [rule_format, of 1] by auto
  moreover have "\<not> mi' ! 3" using sub [rule_format, of 3] by auto
  ultimately show ?thesis using h call len by blast
qed

text \<open>
  Claim C8. Whatever the call does, return or raise, the object after it differs from the
  object before it in \<open>mask_index\<close> at most: \<open>X\<close>, \<open>cope_labels\<close>, \<open>y\<close>,
  \<open>mask_shape\<close>, the nifti header and the affine are the same.
\<close>

theorem update_mask_frame:
  "self_X (snd (update_mask self new_idx)) = self_X self \<and>
   cope_labels (snd (update_mask self new_idx)) = cope_labels self \<and>
   self_y (snd (update_mask self new_idx)) = self_y self \<and>
   mask_shape (snd (update_mask self new_idx)) = mask_shape self \<and>
   nifti_header (snd (update_mask self new_idx)) = nifti_header self \<and>
   affine (snd (update_mask self new_idx)) = affine self \<and>
   (\<exists>mi'. snd (update_mask self new_idx) = self\<lparr>mask_index := mi'\<rparr>)"
proof -
  obtain r self' where call: "update_mask self new_idx = (r, self')"
    by (cases "update_mask self new_idx")
  have "\<exists>mi'. self' = self\<lparr>mask_index := mi'\<rparr>"
  proof (cases r)
    case None
    with call update_mask_success [of self new_idx self'] show ?thesis by blast
  next
    case (Some e)
    with call update_mask_failure [of self new_idx e self'] have "self' = self" by simp
    then have "self' = self\<lparr>mask_index := mask_index self\<rparr>" by simp
    then show ?thesis ..
  qed
  then obtain mi' where upd: "self' = self\<lparr>mask_index := mi'\<rparr>" ..
  from call have s: "snd (update_mask self new_idx) = self'" by simp
  have "\<exists>m. snd (update_mask self new_idx) = self\<lparr>mask_index := m\<rparr>"
    unfolding s using upd ..
  moreover have "self_X self' = self_X self" "cope_labels self' = cope_labels self"
    "self_y self' = self_y self" "mask_shape self' = mask_shape self"
    "nifti_header self' = nifti_header self" "affine self' = affine self"
    unfolding upd by simp_all
  ultimately show ?thesis unfolding s by blast
qed

theorem update_mask_frame_witness:
  "self_X (snd (update_mask (loaded None (Some [True, False, True, False]) (Some [2, 2])) [1, 0, 1])) =
     self_X (loaded None (Some [True, False, True, False]) (Some [2, 2])) \<and>
   mask_shape (snd (update_mask (loaded None (Some [True, False, True, False]) (Some [2, 2])) [1, 0])) =
     Some [2, 2]"
  using update_mask_frame [of "loaded None (Some [True, False, True, False]) (Some [2, 2])" "[1, 0, 1]"]
    update_mask_frame [of "loaded None (Some [True, False, True, False]) (Some [2, 2])" "[1, 0]"]
  by simp

text \<open>
  Claim C9. A valid \<open>new_idx\<close> all of whose entries are not zero (all ones, all
  \<open>True\<close>) leaves the object, and so the mask, exactly as it was.
\<close>

theorem update_mask_all_true_noop:
  assumes "mask_index self = Some mi" and "mask_shape self = Some shp"
    and "length mi = prod_list shp" and "length new_idx = np_sum mi"
    and "\<forall>v\<in>set new_idx. v \<noteq> 0"
  shows "update_mask self new_idx = (None, self)"
proof -
  have "astype_bool (setitem_mask (replicate (length mi) 0) mi new_idx) = mi"
    using assms(4,5) by (rule setitem_all_nonzero)
  with update_mask_valid [OF assms(1-4)]
  have "update_mask self new_idx = (None, self\<lparr>mask_index := Some mi\<rparr>)" by simp
  moreover from assms(1) have "self\<lparr>mask_index := Some mi\<rparr> = self" by simp
  ultimately show ?thesis by simp
qed

theorem update_mask_all_true_noop_witness:
  "length [1, 1 :: int] = np_sum [True, False, True, False] \<and>
   update_mask (loaded None (Some [True, False, True, False]) (Some [2, 2])) [1, 1] =
      (None, loaded None (Some [True, False, True, False]) (Some [2, 2]))"
proof -
  have h: "length [1, 1 :: int] = np_sum [True, False, True, False]"
    by (simp add: np_sum_def)
  have p: "length [True, False, True, False] = prod_list [2, 2]" by simp
  have n: "\<forall>v\<in>set [1, 1 :: int]. v \<noteq> 0" by simp
  from update_mask_all_true_noop [of "loaded None (Some [True, False, True, False]) (Some [2, 2])"
      "[True, False, True, False]" "[2, 2]" "[1, 1]", OF _ _ p h n] h
  show ?thesis by simp
qed



section \<open>The claims about update\_metadata\<close>

text \<open>
  Claim C2. Scenario A of the specification: on the labels A, B, A, C, B, A the call
  returns and leaves the names A, B, C, the encoded labels 0, 1, 0, 2, 1, 0, the positions
  [0, 2, 5], [1, 4], [3], and in \<open>n_inst\<close> one count per sample: 3, 2, 3, 1, 2, 3.
\<close>

theorem update_metadata_scenario_A:
  "\<exists>self'. update_metadata (loaded (Some [''A'', ''B'', ''A'', ''C'', ''B'', ''A'']) mi shp) =
      (None, self') \<and>
    cope_names self' = Some [''A'', ''B'', ''C''] \<and>
    self_y self' = Some [0, 1, 0, 2, 1, 0] \<and>
    trial_idx self' = Some [[0, 2, 5], [1, 4], [3]] \<and>
    n_inst self' = Some [3, 2, 3, 1, 2, 3] \<and>
    n_trials self' = Some 6 \<and> n_cope self' = Some 3"
proof -
  let ?cl = "[''A'', ''B'', ''A'', ''C'', ''B'', ''A'']"
  have u: "np_unique ?cl = [''A'', ''B'', ''C'']" by code_simp
  have f: "fit_transform ?cl = [0, 1, 0, 2, 1, 0]" by code_simp
  have t: "map (\<lambda>cls. np_where (eq_elementwise ?cl cls)) [''A'', ''B'', ''C''] =
    [[0, 2, 5], [1, 4], [3]]" by code_simp
  have n: "map (\<lambda>cls. np_sum (eq_elementwise ?cl cls)) ?cl = [3, 2, 3, 1, 2, 3]"
    by code_simp
  have "cope_labels (loaded (Some ?cl) mi shp) = Some ?cl" by simp
  from update_metadata_Some [OF this] show ?thesis
    unfolding u f t n by simp
qed

text \<open>
  Claim C4. For every label sequence \<open>L\<close>, in particular every non-empty one, the call
  returns; \<open>y\<close> has the length of \<open>L\<close>; two samples have the same code iff they have the
  same label; the code of a label is its position in \<open>cope_names\<close>, the sorted list of the
  distinct labels, which is the number of distinct labels below it in the order of strings;
  and every object with the same labels gets the same \<open>y\<close>.
\<close>

theorem update_metadata_encoding:
  assumes "cope_labels (self :: ('x, 'h, 'a) Mvp) = Some L"
  shows "\<exists>self' ys N. update_metadata self = (None, self') \<and>
           self_y self' = Some ys \<and> cope_names self' = Some N \<and>
           length ys = length L \<and>
           (\<forall>i<length L. \<forall>j<length L. (L ! i = L ! j) = (ys ! i = ys ! j)) \<and>
           sorted N \<and> distinct N \<and> set N = set L \<and>
           (\<forall>i<length L. ys ! i < length N \<and> N ! (ys ! i) = L ! i) \<and>
           (\<forall>i<length L. ys ! i = card {c \<in> set L. c < L ! i}) \<and>
           (\<forall>other :: ('x, 'h, 'a) Mvp. cope_labels other = Some L \<longrightarrow>
              self_y (snd (update_metadata other)) = Some ys)"
proof -
  let ?ys = "fit_transform L"
  let ?N = "np_unique L"
  obtain self' where call: "update_metadata self = (None, self')"
    and y: "self_y self' = Some ?ys" and n: "cope_names self' = Some ?N"
    using update_metadata_Some [OF assms] by simp
  have len: "length ?ys = length L" by (rule length_fit_transform)
  have iff: "\<forall>i<length L. \<forall>j<length L. (L ! i = L ! j) = (?ys ! i = ?ys ! j)"
    by (simp add: fit_transform_eq_iff)
  have dec: "\<forall>i<length L. ?ys ! i < length ?N \<and> ?N ! (?ys ! i) = L ! i"
    by (simp add: fit_transform_less fit_transform_decode)
  have rank: "\<forall>i<length L. ?ys ! i = card {c \<in> set L. c < L ! i}"
    by (simp add: fit_transform_rank)
  have same: "\<forall>other :: ('x, 'h, 'a) Mvp. cope_labels other = Some L \<longrightarrow>
              self_y (snd (update_metadata other)) = Some ?ys"
    by (simp add: update_metadata_Some)
  show ?thesis
  proof (intro exI conjI)
    show "update_metadata self = (None, self')" by (rule call)
    show "self_y self' = Some ?ys" by (rule y)
    show "cope_names self' = Some ?N" by (rule n)
    show "length ?ys = length L" by (rule len)
    show "\<forall>i<length L. \<forall>j<length L. (L ! i = L ! j) = (?ys ! i = ?ys ! j)" by (rule iff)
    show "sorted ?N" by (rule sorted_np_unique)
    show "distinct ?N" by (rule distinct_np_unique)
    show "set ?N = set L" by (rule set_np_unique)
    show "\<forall>i<length L. ?ys ! i < length ?N \<and> ?N ! (?ys ! i) = L ! i" by (rule dec)
    show "\<forall>i<length L. ?ys ! i = card {c \<in> set L. c < L ! i}" by (rule rank)
    show "\<forall>other :: ('x, 'h, 'a) Mvp. cope_labels other = Some L \<longrightarrow>
              self_y (snd (update_metadata other)) = Some ?ys" by (rule same)
  qed
qed

theorem update_metadata_encoding_witness:
  "\<exists>ys. self_y (snd (update_metadata (loaded (Some [''B'', ''A'', ''B'']) None None))) = Some ys \<and>
     length ys = 3 \<and> (ys ! 0 = ys ! 2) \<and> (ys ! 0 \<noteq> ys ! 1) \<and>
     ys ! 1 = card {c \<in> set [''B'', ''A'', ''B'']. c < ''A''}"
proof -
  have h: "cope_labels (loaded (Some [''B'', ''A'', ''B'']) None None) = Some [''B'', ''A'', ''B'']"
    by simp
  from update_metadata_encoding [OF h] obtain self' ys N where
    call: "update_metadata (loaded (Some [''B'', ''A'', ''B'']) None None) = (None, self')"
    and y: "self_y self' = Some ys" and len: "length ys = length [''B'', ''A'', ''B'']"
    and iff: "\<forall>i<length [''B'', ''A'', ''B'']. \<forall>j<length [''B'', ''A'', ''B''].
       ([''B'', ''A'', ''B''] ! i = [''B'', ''A'', ''B''] ! j) = (ys ! i = ys ! j)"
    and rank: "\<forall>i<length [''B'', ''A'', ''B''].
       ys ! i = card {c \<in> set [''B'', ''A'', ''B'']. c < [''B'', ''A'', ''B''] ! i}"
    by blast
  have "ys ! 0 = ys ! 2"
    using iff [rule_format, of 0 2] by simp
  moreover have "ys ! 0 \<noteq> ys ! 1"
    using iff [rule_format, of 0 1] by simp
  moreover have "ys ! 1 = card {c \<in> set [''B'', ''A'', ''B'']. c < ''A''}"
    using rank [rule_format, of 1] by simp
  moreover from call y have "self_y (snd (update_metadata (loaded (Some [''B'', ''A'', ''B'']) None None))) = Some ys"
    by simp
  ultimately show ?thesis using len by simp
qed

text \<open>
  Claim C5. After the call the position vectors of \<open>trial_idx\<close> cover exactly the samples
  0, ..., n - 1, no position occurs twice, in one vector or in two, and the boolean vector
  of every condition has one entry per sample and as many \<open>True\<close> entries as its name has
  occurrences among the labels.
\<close>

theorem update_metadata_partition:
  assumes "cope_labels self = Some L"
  shows "\<exists>self' N C T. update_metadata self = (None, self') \<and>
           cope_names self' = Some N \<and> class_idx self' = Some C \<and> trial_idx self' = Some T \<and>
           length C = length N \<and> length T = length N \<and>
           \<Union> (set ` set T) = {0..<length L} \<and>
           distinct (concat T) \<and>
           (\<forall>a<length T. \<forall>b<length T. a \<noteq> b \<longrightarrow> set (T ! a) \<inter> set (T ! b) = {}) \<and>
           (\<forall>i<length N. length (C ! i) = length L \<and> np_sum (C ! i) = count_list L (N ! i))"
proof -
  let ?N = "np_unique L"
  let ?C = "map (\<lambda>cls. eq_elementwise L cls) ?N"
  let ?T = "map (\<lambda>cls. np_where (eq_elementwise L cls)) ?N"
  obtain self' where call: "update_metadata self = (None, self')"
    and n: "cope_names self' = Some ?N" and c: "class_idx self' = Some ?C"
    and t: "trial_idx self' = Some ?T"
    using update_metadata_Some [OF assms] by simp
  have lc: "length ?C = length ?N" and lt: "length ?T = length ?N" by simp_all
  have "set (concat ?T) = {i. i < length L \<and> L ! i \<in> set ?N}"
    by (rule set_concat_where)
  also have "\<dots> = {0..<length L}"
    by (auto simp: set_np_unique)
  finally have "set (concat ?T) = {0..<length L}" .
  then have cover: "\<Union> (set ` set ?T) = {0..<length L}"
    by (simp only: set_concat)
  have dist: "distinct (concat ?T)"
    by (rule distinct_concat_where) (rule distinct_np_unique)
  have disj: "\<forall>a<length ?T. \<forall>b<length ?T. a \<noteq> b \<longrightarrow> set (?T ! a) \<inter> set (?T ! b) = {}"
  proof (intro allI impI)
    fix a b assume a: "a < length ?T" and b: "b < length ?T" and ab: "a \<noteq> b"
    then have "?N ! a \<noteq> ?N ! b"
      using distinct_np_unique [of L] by (simp add: nth_eq_iff_index_eq)
    then show "set (?T ! a) \<inter> set (?T ! b) = {}"
      using a b by (simp add: disjoint_np_where)
  qed
  have cnt: "\<forall>i<length ?N. length (?C ! i) = length L \<and> np_sum (?C ! i) = count_list L (?N ! i)"
  proof (intro allI impI conjI)
    fix i assume "i < length ?N"
    then show "length (?C ! i) = length L" by (simp add: eq_elementwise_def)
    from \<open>i < length ?N\<close> show "np_sum (?C ! i) = count_list L (?N ! i)"
      by (simp add: np_sum_eq_elementwise)
  qed
  show ?thesis
  proof (intro exI conjI)
    show "update_metadata self = (None, self')" by (rule call)
    show "cope_names self' = Some ?N" by (rule n)
    show "class_idx self' = Some ?C" by (rule c)
    show "trial_idx self' = Some ?T" by (rule t)
    show "length ?C = length ?N" by (rule lc)
    show "length ?T = length ?N" by (rule lt)
    show "\<Union> (set ` set ?T) = {0..<length L}" by (rule cover)
    show "distinct (concat ?T)" by (rule dist)
    show "\<forall>a<length ?T. \<forall>b<length ?T. a \<noteq> b \<longrightarrow> set (?T ! a) \<inter> set (?T ! b) = {}"
      by (rule disj)
    show "\<forall>i<length ?N. length (?C ! i) = length L \<and> np_sum (?C ! i) = count_list L (?N ! i)"
      by (rule cnt)
  qed
qed

theorem update_metadata_partition_witness:
  "\<exists>N C T. cope_names (snd (update_metadata (loaded (Some [''B'', ''A'', ''B'']) None None))) = Some N \<and>
     class_idx (snd (update_metadata (loaded (Some [''B'', ''A'', ''B'']) None None))) = Some C \<and>
     trial_idx (snd (update_metadata (loaded (Some [''B'', ''A'', ''B'']) None None))) = Some T \<and>
     length C = length N \<and> length T = length N \<and>
     \<Union> (set ` set T) = {0..<3} \<and> distinct (concat T)"
proof -
  let ?L = "[''B'', ''A'', ''B'']"
  have h: "cope_labels (loaded (Some ?L) None None) = Some ?L" by simp
  from update_metadata_partition [OF h] obtain self' N C T where
    call: "update_metadata (loaded (Some ?L) None None) = (None, self')"
    and f: "cope_names self' = Some N" "class_idx self' = Some C" "trial_idx self' = Some T"
    and len: "length C = length N" "length T = length N"
    and cover: "\<Union> (set ` set T) = {0..<length ?L}"
    and dist: "distinct (concat T)"
    by blast
  from call have s: "snd (update_metadata (loaded (Some ?L) None None)) = self'" by simp
  have l: "length ?L = 3" by simp
  show ?thesis
    unfolding s using f len cover dist unfolding l by blast
qed

text \<open>
  Claim C7 says that the call fails on undefined and on empty labels. On the empty array
  it does not: no line of \<open>update_metadata\<close> checks the labels, and the label encoder accepts
  an empty array.
\<close>

theorem update_metadata_empty_labels_accepted:
  "cope_labels (loaded (Some []) None None) = Some [] \<and>
   fst (update_metadata (loaded (Some []) None None)) = None"
  by (simp add: update_metadata_Some)

text \<open>
  Claim C7, amended. On undefined labels the label encoder raises and the object is as it
  was. On the empty array the call returns, and every derived field is empty, with
  \<open>n_trials\<close> and \<open>n_cope\<close> zero.
\<close>

theorem update_metadata_undefined_or_empty:
  "(cope_labels self = None \<longrightarrow>
      update_metadata self = (Some (ValueError ''bad input shape ()''), self)) \<and>
   (cope_labels self = Some [] \<longrightarrow>
      update_metadata self =
        (None, self\<lparr>self_y := Some [], n_trials := Some 0, cope_names := Some [],
           n_cope := Some 0, n_inst := Some [], class_idx := Some [], trial_idx := Some []\<rparr>))"
  by (simp add: update_metadata_def np_unique_def fit_transform_def)

theorem update_metadata_undefined_or_empty_witness:
  "update_metadata (loaded None None None) =
     (Some (ValueError ''bad input shape ()''), loaded None None None) \<and>
   fst (update_metadata (loaded (Some []) None None)) = None \<and>
   self_y (snd (update_metadata (loaded (Some []) None None))) = Some [] \<and>
   n_trials (snd (update_metadata (loaded (Some []) None None))) = Some 0"
  using update_metadata_undefined_or_empty [of "loaded None None None"]
    update_metadata_undefined_or_empty [of "loaded (Some []) None None"]
  by simp

end
